theory Spec2Isabelle
  imports Main "HOL-Library.Word"
begin

unbundle bit_operations_syntax

section \<open>Machine types and strobe constants\<close>

type_synonym u8 = "8 word"
type_synonym u16 = "16 word"
type_synonym u32 = "32 word"

text \<open>The constants of \<^verbatim>\<open>main_hardware_trigger.c\<close>, lines 28 to 31, computed in 32 bits.\<close>

definition CLOCK_FREQ :: u32 where
  "CLOCK_FREQ = 32000000"

definition PS_PER_TICK :: u32 where
  "PS_PER_TICK = 1000000000 div (CLOCK_FREQ div 1000)"

definition TIME_SCALING :: u32 where
  "TIME_SCALING = 10"

definition MAX_TIME_NS :: u32 where
  "MAX_TIME_NS = ((push_bit 7 PS_PER_TICK) div 1000) * 16 * 255"

section \<open>The divider search \<^verbatim>\<open>find_scalers_time\<close>\<close>

text \<open>The three cells behind the output pointers \<^verbatim>\<open>prescale\<close>, \<^verbatim>\<open>postscale\<close>
  and \<^verbatim>\<open>period\<close>.\<close>

record scalers =
  prescale :: u8
  postscale :: u8
  period :: u8

text \<open>The four \<^verbatim>\<open>_best\<close> locals of the search.\<close>

record best =
  time_ns_best :: u32
  postscale_best :: u8
  prescale_best :: u8
  period_best :: u32

definition best_init :: best where
  "best_init = \<lparr>time_ns_best = 0, postscale_best = 0, prescale_best = 0, period_best = 0\<rparr>"

text \<open>\<^verbatim>\<open>labs\<close> applied to an unsigned 32-bit difference, as line 99 does twice. On this
  controller \<^verbatim>\<open>long\<close> has 32 bits: the difference is read as a two's complement number
  and its magnitude is taken. The result is kept as an integer, so that the one argument
  \<^verbatim>\<open>labs\<close> is not defined for in C, \<open>- 2^31\<close>, has the magnitude \<open>2^31\<close> here.\<close>

definition labs :: "u32 \<Rightarrow> int" where
  "labs x = \<bar>sint x\<bar>"

text \<open>Line 77: the target in ticks, rounded to the nearest tick.\<close>

definition ticks_of :: "u32 \<Rightarrow> u32" where
  "ticks_of target_time_ns =
     (target_time_ns * (1000 div TIME_SCALING) + (drop_bit 1 PS_PER_TICK) div TIME_SCALING)
       div (PS_PER_TICK div TIME_SCALING)"

text \<open>Lines 90 to 93: the period implied by \<^verbatim>\<open>rem\<close> for one prescale value.\<close>

definition period_of :: "u32 \<Rightarrow> nat \<Rightarrow> u32" where
  "period_of rem prescale_loop =
     (if prescale_loop = 0 then rem
      else drop_bit 1 (drop_bit (prescale_loop - 1) rem + 1))"

text \<open>Line 95: the test a combination has to pass.\<close>

definition valid_period :: "u32 \<Rightarrow> nat \<Rightarrow> bool" where
  "valid_period period_loop prescale_loop \<longleftrightarrow>
     period_loop > 0 \<and> period_loop \<le> 0xFF \<and> (period_loop > 1 \<or> prescale_loop > 0)"

text \<open>Line 97: the time in nanoseconds a combination gives.\<close>

definition time_ns_of :: "nat \<Rightarrow> u32 \<Rightarrow> nat \<Rightarrow> u32" where
  "time_ns_of prescale_loop period_loop postscale_loop =
     ((push_bit prescale_loop (PS_PER_TICK div TIME_SCALING) * period_loop) * of_nat postscale_loop)
       div (1000 div TIME_SCALING)"

text \<open>Lines 90 to 109: one pass through the body of the inner loop. The first component
  tells whether the pass ends in \<^verbatim>\<open>break\<close>.\<close>

definition try_scalers :: "u32 \<Rightarrow> u32 \<Rightarrow> nat \<Rightarrow> nat \<Rightarrow> best \<Rightarrow> bool \<times> best" where
  "try_scalers target_time_ns rem postscale_loop prescale_loop b =
     (let period_loop = period_of rem prescale_loop in
      if valid_period period_loop prescale_loop then
        (let time_ns_loop = time_ns_of prescale_loop period_loop postscale_loop;
             b' = (if labs (time_ns_loop - target_time_ns) < labs (time_ns_best b - target_time_ns)
                   then \<lparr>time_ns_best = time_ns_loop,
                         postscale_best = of_nat postscale_loop,
                         prescale_best = of_nat prescale_loop,
                         period_best = period_loop\<rparr>
                   else b)
         in (time_ns_loop = target_time_ns, b'))
      else (False, b))"

text \<open>The inner loop from \<^verbatim>\<open>prescale_loop\<close> down to 0.\<close>

fun prescale_search :: "u32 \<Rightarrow> u32 \<Rightarrow> nat \<Rightarrow> nat \<Rightarrow> best \<Rightarrow> best" where
  "prescale_search target_time_ns rem postscale_loop 0 b =
     snd (try_scalers target_time_ns rem postscale_loop 0 b)"
| "prescale_search target_time_ns rem postscale_loop (Suc k) b =
     (case try_scalers target_time_ns rem postscale_loop (Suc k) b of
        (brk, b') \<Rightarrow> if brk then b' else prescale_search target_time_ns rem postscale_loop k b')"

text \<open>The outer loop from \<^verbatim>\<open>postscale_loop\<close> down to 1.\<close>

fun postscale_search :: "u32 \<Rightarrow> u32 \<Rightarrow> nat \<Rightarrow> best \<Rightarrow> best" where
  "postscale_search target_time_ns ticks 0 b = b"
| "postscale_search target_time_ns ticks (Suc n) b =
     postscale_search target_time_ns ticks n
       (prescale_search target_time_ns (ticks div of_nat (Suc n)) (Suc n) 7 b)"

text \<open>Lines 113 to 115: what is stored through the three output pointers.\<close>

definition store_best :: "best \<Rightarrow> scalers" where
  "store_best b =
     \<lparr>prescale = prescale_best b,
      postscale = postscale_best b - 1,
      period = ucast (period_best b - 1)\<rparr>"

text \<open>The function takes the contents of the output cells before the call and returns
  them with the result: the early return of line 75 leaves them as they were.\<close>

definition find_scalers_time :: "u32 \<Rightarrow> scalers \<Rightarrow> u32 \<times> scalers" where
  "find_scalers_time target_time_ns outs =
     (if target_time_ns > MAX_TIME_NS then (0, outs)
      else (let ticks = ticks_of target_time_ns;
                b = postscale_search target_time_ns ticks 16 best_init
            in (time_ns_best b, store_best b)))"

text \<open>The combination the search computes for one pair of loop counters: its period
  (lines 86 and 90 to 93), whether it passes the test of line 95 within the ranges of the
  two loops, and the record stored at lines 101 to 104 when it is adopted.\<close>

definition candidate_period :: "u32 \<Rightarrow> nat \<Rightarrow> nat \<Rightarrow> u32" where
  "candidate_period ticks postscale_loop prescale_loop =
     period_of (ticks div of_nat postscale_loop) prescale_loop"

definition candidate_time :: "u32 \<Rightarrow> nat \<Rightarrow> nat \<Rightarrow> u32" where
  "candidate_time ticks postscale_loop prescale_loop =
     time_ns_of prescale_loop (candidate_period ticks postscale_loop prescale_loop) postscale_loop"

definition candidate_valid :: "u32 \<Rightarrow> nat \<Rightarrow> nat \<Rightarrow> bool" where
  "candidate_valid ticks postscale_loop prescale_loop \<longleftrightarrow>
     1 \<le> postscale_loop \<and> postscale_loop \<le> 16 \<and> prescale_loop \<le> 7 \<and>
     valid_period (candidate_period ticks postscale_loop prescale_loop) prescale_loop"

definition adopted :: "u32 \<Rightarrow> nat \<Rightarrow> nat \<Rightarrow> best" where
  "adopted rem postscale_loop prescale_loop =
     \<lparr>time_ns_best = time_ns_of prescale_loop (period_of rem prescale_loop) postscale_loop,
      postscale_best = of_nat postscale_loop,
      prescale_best = of_nat prescale_loop,
      period_best = period_of rem prescale_loop\<rparr>"

text \<open>The search passes through both loops without a combination passing the test of
  line 95.\<close>

definition no_valid_candidate :: "u32 \<Rightarrow> bool" where
  "no_valid_candidate ticks \<longleftrightarrow>
     (\<forall>postscale_loop \<in> {1..16}. \<forall>prescale_loop \<in> {0..7}.
        \<not> valid_period (candidate_period ticks postscale_loop prescale_loop) prescale_loop)"

section \<open>Registers and program variables\<close>

text \<open>Every write to a special function register and every call of a peripheral driver,
  in the order the program performs them.\<close>

datatype hw_op =
    Write_T2CON u8
  | Write_T4CON u8
  | Write_PR2 u8
  | Write_PR4 u8
  | Write_TMR2 u8
  | Write_T2ON bool
  | Write_T4ON bool
  | Write_LC3G3POL bool
  | Write_TMR1IE bool
  | Write_TMR1IF bool
  | Call_TMR1_StartSinglePulseAcquisition
  | Call_TMR1_ReadTimer
  | Call_TMR1_WriteTimer u16

text \<open>The registers the two files read or write, the three global variables of the strobe
  (lines 48 to 50) and the history of register writes. \<^verbatim>\<open>T2ON\<close> and \<^verbatim>\<open>T4ON\<close> are
  bit 7 of \<^verbatim>\<open>T2CON\<close> and \<^verbatim>\<open>T4CON\<close>, the bit that lines 170 and 171 keep.\<close>

record mcu =
  T2CON :: u8
  T4CON :: u8
  PR2 :: u8
  PR4 :: u8
  TMR2 :: u8
  TMR1 :: u16
  LC3G3POL :: bool
  TMR1IE :: bool
  TMR1IF :: bool
  T1GGO :: bool
  IOCIE :: bool
  IOCIF :: bool
  PEIE :: bool
  SSP1IE :: bool
  SSP1IF :: bool
  cam_read_time_us :: u16
  trigger_mode :: u8
  strobe_enabled :: u8
  hw_log :: "hw_op list"

definition write_T2CON :: "u8 \<Rightarrow> mcu \<Rightarrow> mcu" where
  "write_T2CON v st = st\<lparr>T2CON := v, hw_log := hw_log st @ [Write_T2CON v]\<rparr>"

definition write_T4CON :: "u8 \<Rightarrow> mcu \<Rightarrow> mcu" where
  "write_T4CON v st = st\<lparr>T4CON := v, hw_log := hw_log st @ [Write_T4CON v]\<rparr>"

definition write_PR2 :: "u8 \<Rightarrow> mcu \<Rightarrow> mcu" where
  "write_PR2 v st = st\<lparr>PR2 := v, hw_log := hw_log st @ [Write_PR2 v]\<rparr>"

definition write_PR4 :: "u8 \<Rightarrow> mcu \<Rightarrow> mcu" where
  "write_PR4 v st = st\<lparr>PR4 := v, hw_log := hw_log st @ [Write_PR4 v]\<rparr>"

definition write_TMR2 :: "u8 \<Rightarrow> mcu \<Rightarrow> mcu" where
  "write_TMR2 v st = st\<lparr>TMR2 := v, hw_log := hw_log st @ [Write_TMR2 v]\<rparr>"

definition with_bit7 :: "bool \<Rightarrow> u8 \<Rightarrow> u8" where
  "with_bit7 v r = (if v then r OR 0x80 else r AND 0x7F)"

definition write_T2ON :: "bool \<Rightarrow> mcu \<Rightarrow> mcu" where
  "write_T2ON v st = st\<lparr>T2CON := with_bit7 v (T2CON st), hw_log := hw_log st @ [Write_T2ON v]\<rparr>"

definition write_T4ON :: "bool \<Rightarrow> mcu \<Rightarrow> mcu" where
  "write_T4ON v st = st\<lparr>T4CON := with_bit7 v (T4CON st), hw_log := hw_log st @ [Write_T4ON v]\<rparr>"

definition write_LC3G3POL :: "bool \<Rightarrow> mcu \<Rightarrow> mcu" where
  "write_LC3G3POL v st = st\<lparr>LC3G3POL := v, hw_log := hw_log st @ [Write_LC3G3POL v]\<rparr>"

definition write_TMR1IE :: "bool \<Rightarrow> mcu \<Rightarrow> mcu" where
  "write_TMR1IE v st = st\<lparr>TMR1IE := v, hw_log := hw_log st @ [Write_TMR1IE v]\<rparr>"

definition write_TMR1IF :: "bool \<Rightarrow> mcu \<Rightarrow> mcu" where
  "write_TMR1IF v st = st\<lparr>TMR1IF := v, hw_log := hw_log st @ [Write_TMR1IF v]\<rparr>"

text \<open>Modelled from the spec: \<^verbatim>\<open>TMR1_StartSinglePulseAcquisition\<close> of the generated
  \<^verbatim>\<open>tmr1.c\<close>, which is not among the sources. It is the gate-capture start primitive:
  it opens a capture cycle, after which the gate-closed query \<^verbatim>\<open>T1GGO == 0\<close> is false
  until the next edge.\<close>

definition TMR1_StartSinglePulseAcquisition :: "mcu \<Rightarrow> mcu" where
  "TMR1_StartSinglePulseAcquisition st =
     st\<lparr>T1GGO := True, hw_log := hw_log st @ [Call_TMR1_StartSinglePulseAcquisition]\<rparr>"

text \<open>Modelled from the spec: \<^verbatim>\<open>TMR1_ReadTimer\<close> and \<^verbatim>\<open>TMR1_WriteTimer\<close> of the
  generated \<^verbatim>\<open>tmr1.c\<close>, which is not among the sources. They are the read of the
  free-running counter of timer 1 and its reset to a given count.\<close>

definition TMR1_ReadTimer :: "mcu \<Rightarrow> u16 \<times> mcu" where
  "TMR1_ReadTimer st = (TMR1 st, st\<lparr>hw_log := hw_log st @ [Call_TMR1_ReadTimer]\<rparr>)"

definition TMR1_WriteTimer :: "u16 \<Rightarrow> mcu \<Rightarrow> mcu" where
  "TMR1_WriteTimer v st = st\<lparr>TMR1 := v, hw_log := hw_log st @ [Call_TMR1_WriteTimer v]\<rparr>"

section \<open>Strobe operations\<close>

text \<open>Lines 121 to 138. The one-bit field \<^verbatim>\<open>T2ON\<close> takes bit 0 of \<^verbatim>\<open>enable\<close>.\<close>

definition set_strobe_enable :: "u8 \<Rightarrow> mcu \<Rightarrow> mcu" where
  "set_strobe_enable enable st =
     (let st1 = st\<lparr>strobe_enabled := (if enable \<noteq> 0 then 1 else 0)\<rparr> in
      if trigger_mode st1 = 0
      then write_T4ON True (write_T2ON (bit enable 0) st1)
      else write_T4ON True (write_T2ON False st1))"

text \<open>Lines 140 to 144.\<close>

definition set_strobe_hold :: "u8 \<Rightarrow> mcu \<Rightarrow> mcu" where
  "set_strobe_hold hold st = write_LC3G3POL (hold \<noteq> 0) st"

text \<open>Lines 146 to 173. The two targets are passed by pointer and overwritten with the
  achieved times, so the function returns them with the new state. The six divider locals
  are not initialised: \<^verbatim>\<open>wait_locals\<close> and \<^verbatim>\<open>duration_locals\<close> are whatever they hold
  when the function is entered.\<close>

definition set_strobe_timing ::
  "u32 \<Rightarrow> u32 \<Rightarrow> scalers \<Rightarrow> scalers \<Rightarrow> mcu \<Rightarrow> u32 \<times> u32 \<times> mcu" where
  "set_strobe_timing wait_target_ns duration_target_ns wait_locals duration_locals st =
     (let (wait_ns, wait) = find_scalers_time wait_target_ns wait_locals;
          (duration_ns, duration) = find_scalers_time duration_target_ns duration_locals
      in if wait_ns > 0 \<and> duration_ns > 0 then
           (let t4con_copy = T4CON st;
                st1 = write_T4CON 0 st;
                st2 = write_PR2 (period wait) st1;
                st3 = write_PR4 (period duration) st2;
                st4 = write_T2CON
                        ((T2CON st3 AND 0x80) OR push_bit 4 (prescale wait) OR postscale wait) st3;
                st5 = write_T4CON
                        ((t4con_copy AND 0x80) OR push_bit 4 (prescale duration)
                           OR postscale duration) st4
            in (wait_ns, duration_ns, st5))
         else (wait_ns, duration_ns, st))"

text \<open>Lines 176 to 195.\<close>

definition set_trigger_mode :: "u8 \<Rightarrow> mcu \<Rightarrow> mcu" where
  "set_trigger_mode mode st =
     (let st1 = st\<lparr>trigger_mode := (if mode = 1 then 1 else 0)\<rparr> in
      if trigger_mode st1 = 1
      then write_TMR1IF False (write_TMR1IE True st1)
      else write_TMR1IE False st1)"

text \<open>Lines 202 to 215.\<close>

definition hardware_trigger_strobe :: "mcu \<Rightarrow> mcu" where
  "hardware_trigger_strobe st =
     (if strobe_enabled st \<noteq> 0 \<and> trigger_mode st = 1
      then TMR1_StartSinglePulseAcquisition (write_T2ON True (write_TMR2 0 st))
      else st)"

text \<open>The interrupt manager of \<^verbatim>\<open>interrupt_manager_hardware_trigger.c\<close>, lines 19 to 56.
  The handlers of the two other interrupt sources are not among the sources and are
  parameters.\<close>

definition INTERRUPT_InterruptManager :: "(mcu \<Rightarrow> mcu) \<Rightarrow> (mcu \<Rightarrow> mcu) \<Rightarrow> mcu \<Rightarrow> mcu" where
  "INTERRUPT_InterruptManager PIN_MANAGER_IOC SPI1_ISR st =
     (if IOCIE st \<and> IOCIF st then PIN_MANAGER_IOC st
      else if PEIE st then
        (if TMR1IE st \<and> TMR1IF st then
           (let st1 = write_TMR1IF False st in
            if \<not> T1GGO st1
            then TMR1_StartSinglePulseAcquisition (hardware_trigger_strobe st1)
            else st1)
         else if SSP1IE st \<and> SSP1IF st then SPI1_ISR st
         else st)
      else st)"

text \<open>Lines 328 to 335 of \<^verbatim>\<open>main\<close>, run at the end of every pass through the main
  loop: when the capture cycle is closed, the count of timer 1 is kept as the camera read
  time, the counter is reset and capture is started again.\<close>

definition main_gate_poll :: "mcu \<Rightarrow> mcu" where
  "main_gate_poll st =
     (if \<not> T1GGO st then
        (let (t, st1) = TMR1_ReadTimer st;
             st2 = st1\<lparr>cam_read_time_us := t\<rparr>;
             st3 = TMR1_WriteTimer 0 st2
         in TMR1_StartSinglePulseAcquisition st3)
      else st)"

section \<open>Command dispatch\<close>

definition PACKET_TYPE_SET_STROBE_ENABLE :: u8 where
  "PACKET_TYPE_SET_STROBE_ENABLE = 1"

definition PACKET_TYPE_SET_STROBE_TIMING :: u8 where
  "PACKET_TYPE_SET_STROBE_TIMING = 2"

definition PACKET_TYPE_SET_STROBE_HOLD :: u8 where
  "PACKET_TYPE_SET_STROBE_HOLD = 3"

definition PACKET_TYPE_GET_CAM_READ_TIME :: u8 where
  "PACKET_TYPE_GET_CAM_READ_TIME = 4"

definition PACKET_TYPE_SET_TRIGGER_MODE :: u8 where
  "PACKET_TYPE_SET_TRIGGER_MODE = 5"

text \<open>Modelled from the spec: the status codes of \<^verbatim>\<open>common.h\<close>, which is not among the
  sources. The status byte of a response is OK or PACKET_INVALID.\<close>

datatype err = ERR_OK | ERR_PACKET_INVALID

text \<open>Modelled from the spec: \<^verbatim>\<open>spi_packet_write\<close> of \<^verbatim>\<open>spi.c\<close>, which is not among
  the sources, hands one response record to the host link. A response is its type tag, the
  status in its first byte and the bytes after it.\<close>

type_synonym response = "u8 \<times> err \<times> u8 list"

text \<open>Multi-byte integers are little-endian, as the casts of lines 268 to 271 and 300 read
  and write them on this controller.\<close>

definition load_u32 :: "u8 list \<Rightarrow> nat \<Rightarrow> u32" where
  "load_u32 buf i =
     ucast (buf ! i) OR push_bit 8 (ucast (buf ! (i + 1)))
       OR push_bit 16 (ucast (buf ! (i + 2))) OR push_bit 24 (ucast (buf ! (i + 3)))"

definition bytes_u32 :: "u32 \<Rightarrow> u8 list" where
  "bytes_u32 w = [ucast w, ucast (drop_bit 8 w), ucast (drop_bit 16 w), ucast (drop_bit 24 w)]"

definition bytes_u16 :: "u16 \<Rightarrow> u8 list" where
  "bytes_u16 w = [ucast w, ucast (drop_bit 8 w)]"

text \<open>The \<^verbatim>\<open>switch\<close> of lines 245 to 324, entered when \<^verbatim>\<open>spi_packet_read\<close> has delivered
  a packet: its type, the receive buffer \<^verbatim>\<open>packet_data\<close> (of \<^verbatim>\<open>SPI_PACKET_BUF_SIZE\<close>
  bytes) and the size of the payload. The result is the new state and the response
  written, if any.\<close>

definition dispatch ::
  "scalers \<Rightarrow> scalers \<Rightarrow> u8 \<Rightarrow> u8 list \<Rightarrow> u8 \<Rightarrow> mcu \<Rightarrow> mcu \<times> response option" where
  "dispatch wait_locals duration_locals packet_type packet_data packet_data_size st =
     (if packet_type = 0 then (st, None)
      else if packet_type = PACKET_TYPE_SET_STROBE_ENABLE then
        (if packet_data_size = 1
         then (set_strobe_enable (if packet_data ! 0 \<noteq> 0 then 1 else 0) st,
               Some (packet_type, ERR_OK, []))
         else (st, Some (packet_type, ERR_PACKET_INVALID, [])))
      else if packet_type = PACKET_TYPE_SET_STROBE_TIMING then
        (if packet_data_size = 8
         then (let (strobe_wait_ns, strobe_period_ns, st') =
                     set_strobe_timing (load_u32 packet_data 0) (load_u32 packet_data 4)
                       wait_locals duration_locals st
               in (st', Some (packet_type, ERR_OK,
                              bytes_u32 strobe_wait_ns @ bytes_u32 strobe_period_ns)))
         else (st, Some (packet_type, ERR_PACKET_INVALID, [])))
      else if packet_type = PACKET_TYPE_SET_STROBE_HOLD then
        (if packet_data_size = 1
         then (set_strobe_hold (if packet_data ! 0 \<noteq> 0 then 1 else 0) st,
               Some (packet_type, ERR_OK, []))
         else (st, Some (packet_type, ERR_PACKET_INVALID, [])))
      else if packet_type = PACKET_TYPE_GET_CAM_READ_TIME then
        (if packet_data_size = 0
         then (st, Some (packet_type, ERR_OK, bytes_u16 (cam_read_time_us st)))
         else (st, Some (packet_type, ERR_PACKET_INVALID, [])))
      else if packet_type = PACKET_TYPE_SET_TRIGGER_MODE then
        (if packet_data_size = 1
         then (set_trigger_mode (if packet_data ! 0 \<noteq> 0 then 1 else 0) st,
               Some (packet_type, ERR_OK, []))
         else (st, Some (packet_type, ERR_PACKET_INVALID, [])))
      else (st, None))"

section \<open>States and cells for concrete runs\<close>

text \<open>The globals as lines 228 to 230 of \<^verbatim>\<open>main\<close> set them, peripheral interrupts enabled
  (line 235), every other register clear and no write performed yet.\<close>

definition reset_state :: mcu where
  "reset_state =
     \<lparr>T2CON = 0, T4CON = 0, PR2 = 0, PR4 = 0, TMR2 = 0, TMR1 = 0,
      LC3G3POL = False,
      TMR1IE = False, TMR1IF = False, T1GGO = False, IOCIE = False, IOCIF = False,
      PEIE = True, SSP1IE = False, SSP1IF = False, cam_read_time_us = 0,
      trigger_mode = 0, strobe_enabled = 0, hw_log = []\<rparr>"

text \<open>Some contents for divider cells that no search result can be confused with.\<close>

definition stale_scalers :: scalers where
  "stale_scalers = \<lparr>prescale = 9, postscale = 9, period = 9\<rparr>"

text \<open>A gate edge as the program sees it: the timer 1 flag raised and the capture cycle
  closed.\<close>

definition gate_edge_pending :: "mcu \<Rightarrow> mcu" where
  "gate_edge_pending st = st\<lparr>TMR1IF := True, T1GGO := False\<rparr>"

text \<open>What the program does with a gate edge: the interrupt manager runs on it, and the
  pass of the main loop that the edge fell into comes to its poll. The manager looks at
  the enable bits itself, so where the timer 1 interrupt is not enabled and no other
  source is pending it does nothing, as when it is not entered at all.\<close>

definition gate_edge_event :: "(mcu \<Rightarrow> mcu) \<Rightarrow> (mcu \<Rightarrow> mcu) \<Rightarrow> mcu \<Rightarrow> mcu" where
  "gate_edge_event PIN_MANAGER_IOC SPI1_ISR st =
     main_gate_poll (INTERRUPT_InterruptManager PIN_MANAGER_IOC SPI1_ISR (gate_edge_pending st))"

text \<open>The interrupt configuration the command path keeps: peripheral interrupts on
  (line 235), and the timer 1 interrupt enabled exactly in Hardware mode (lines 184 and
  193).\<close>

definition gate_interrupt_follows_mode :: "mcu \<Rightarrow> bool" where
  "gate_interrupt_follows_mode st \<longleftrightarrow> PEIE st \<and> (TMR1IE st \<longleftrightarrow> trigger_mode st = 1)"

text \<open>Hardware mode selected and the strobe enabled: the state that waits for an edge.\<close>

definition hardware_armed :: mcu where
  "hardware_armed = set_strobe_enable 1 (set_trigger_mode 1 reset_state)"

section \<open>Evaluation of the constants and of the loops\<close>

lemmas strobe_consts = PS_PER_TICK_def CLOCK_FREQ_def TIME_SCALING_def

lemmas loop_body_defs = try_scalers_def period_of_def valid_period_def time_ns_of_def labs_def
  best_init_def Let_def

lemmas write_defs = write_T2CON_def write_T4CON_def write_PR2_def write_PR4_def write_TMR2_def
  write_T2ON_def write_T4ON_def write_LC3G3POL_def write_TMR1IE_def write_TMR1IF_def
  TMR1_StartSinglePulseAcquisition_def TMR1_ReadTimer_def TMR1_WriteTimer_def

lemmas packet_type_defs = PACKET_TYPE_SET_STROBE_ENABLE_def PACKET_TYPE_SET_STROBE_TIMING_def
  PACKET_TYPE_SET_STROBE_HOLD_def PACKET_TYPE_GET_CAM_READ_TIME_def
  PACKET_TYPE_SET_TRIGGER_MODE_def

lemma PS_PER_TICK_value: "PS_PER_TICK = 31250"
  by (simp add: strobe_consts)

lemma MAX_TIME_NS_value: "MAX_TIME_NS = 16320000"
  by (simp add: MAX_TIME_NS_def strobe_consts)

lemma prescale_search_numeral:
  "prescale_search t r p (numeral k) b =
     (if fst (try_scalers t r p (numeral k) b) then snd (try_scalers t r p (numeral k) b)
      else prescale_search t r p (pred_numeral k) (snd (try_scalers t r p (numeral k) b)))"
  by (simp add: numeral_eq_Suc split: prod.split)

lemma postscale_search_numeral:
  "postscale_search t ticks (numeral k) b =
     postscale_search t ticks (pred_numeral k)
       (prescale_search t (ticks div of_nat (numeral k)) (numeral k) 7 b)"
  by (simp add: numeral_eq_Suc)

lemma postscale_search_1:
  "postscale_search t ticks 1 b = prescale_search t ticks 1 7 b"
  by simp

lemmas search_unroll = postscale_search_numeral postscale_search_1 prescale_search_numeral
  loop_body_defs strobe_consts

lemma ticks_of_1000000: "ticks_of 1000000 = 32000"
  by (simp add: ticks_of_def strobe_consts)

lemma search_1000000:
  "postscale_search 1000000 32000 16 best_init =
     \<lparr>time_ns_best = 1000000, postscale_best = 16, prescale_best = 4, period_best = 125\<rparr>"
  by (simp add: search_unroll)

lemma find_scalers_time_1000000:
  "find_scalers_time 1000000 outs = (1000000, \<lparr>prescale = 4, postscale = 15, period = 124\<rparr>)"
  by (simp add: find_scalers_time_def MAX_TIME_NS_value ticks_of_1000000 search_1000000 store_best_def)

lemma find_scalers_time_above_max:
  "MAX_TIME_NS < target_time_ns \<Longrightarrow> find_scalers_time target_time_ns outs = (0, outs)"
  by (simp add: find_scalers_time_def)

lemma bytes_u32_zero_iff: "bytes_u32 w = [0, 0, 0, 0] \<longleftrightarrow> w = 0"
proof
  assume a: "bytes_u32 w = [0, 0, 0, 0]"
  have b: "\<not> bit (ucast (drop_bit k w) :: u8) j" if "k \<in> {0, 8, 16, 24}" for k j
    using a that by (auto simp add: bytes_u32_def)
  have "\<not> bit w n" for n
  proof (cases "n < 32")
    case True
    then consider "n < 8" | "8 \<le> n \<and> n < 16" | "16 \<le> n \<and> n < 24" | "24 \<le> n \<and> n < 32"
      by linarith
    then show ?thesis
    proof cases
      case 1 with b [of 0 n] show ?thesis by (simp add: bit_ucast_iff)
    next
      case 2 with b [of 8 "n - 8"] show ?thesis by (auto simp add: bit_ucast_iff bit_drop_bit_eq)
    next
      case 3 with b [of 16 "n - 16"] show ?thesis by (auto simp add: bit_ucast_iff bit_drop_bit_eq)
    next
      case 4 with b [of 24 "n - 24"] show ?thesis by (auto simp add: bit_ucast_iff bit_drop_bit_eq)
    qed
  next
    case False
    then show ?thesis by (simp add: bit_word_iff_drop_bit_and not_less bit_imp_le_length)
  qed
  then show "w = 0" by (simp add: bit_eq_iff)
next
  assume "w = 0"
  then show "bytes_u32 w = [0, 0, 0, 0]" by (simp add: bytes_u32_def)
qed

lemma hardware_armed_value:
  "hardware_armed = reset_state\<lparr>T4CON := 0x80, TMR1IE := True, trigger_mode := 1,
     strobe_enabled := 1,
     hw_log := [Write_TMR1IE True, Write_TMR1IF False, Write_T2ON False, Write_T4ON True]\<rparr>"
  by (simp add: hardware_armed_def set_strobe_enable_def set_trigger_mode_def write_defs
      reset_state_def with_bit7_def)

lemma ticks_of_16320001: "ticks_of 16320001 = 522240"
  by (simp add: ticks_of_def strobe_consts)

lemma search_16320001:
  "postscale_search 16320001 522240 16 best_init =
     \<lparr>time_ns_best = 16320000, postscale_best = 16, prescale_best = 7, period_best = 255\<rparr>"
  by (simp add: search_unroll)

section \<open>Invariants of the two loops\<close>

lemma labs_nonneg: "0 \<le> labs x"
  by (simp add: labs_def)

lemma try_scalers_invalid:
  "\<not> valid_period (period_of rem pre) pre \<Longrightarrow> try_scalers t rem post pre b = (False, b)"
  by (simp add: try_scalers_def)

lemma try_scalers_valid:
  "valid_period (period_of rem pre) pre \<Longrightarrow>
   try_scalers t rem post pre b =
     (time_ns_best (adopted rem post pre) = t,
      if labs (time_ns_best (adopted rem post pre) - t) < labs (time_ns_best b - t)
      then adopted rem post pre else b)"
  by (simp add: try_scalers_def adopted_def Let_def)

lemma try_scalers_origin:
  "snd (try_scalers t rem post pre b) = b \<or>
   valid_period (period_of rem pre) pre \<and> snd (try_scalers t rem post pre b) = adopted rem post pre"
  by (cases "valid_period (period_of rem pre) pre")
     (simp_all add: try_scalers_invalid try_scalers_valid)

lemma try_scalers_mono:
  "labs (time_ns_best (snd (try_scalers t rem post pre b)) - t) \<le> labs (time_ns_best b - t)"
  by (cases "valid_period (period_of rem pre) pre")
     (simp_all add: try_scalers_invalid try_scalers_valid)

lemma try_scalers_le:
  "valid_period (period_of rem pre) pre \<Longrightarrow>
   labs (time_ns_best (snd (try_scalers t rem post pre b)) - t)
     \<le> labs (time_ns_best (adopted rem post pre) - t)"
  by (simp add: try_scalers_valid)

lemma try_scalers_break:
  "fst (try_scalers t rem post pre b) \<Longrightarrow>
   labs (time_ns_best (snd (try_scalers t rem post pre b)) - t) = 0"
proof -
  assume brk: "fst (try_scalers t rem post pre b)"
  then have v: "valid_period (period_of rem pre) pre"
    by (cases "valid_period (period_of rem pre) pre") (simp_all add: try_scalers_invalid)
  with brk have "time_ns_best (adopted rem post pre) = t"
    by (simp add: try_scalers_valid)
  then have "labs (time_ns_best (adopted rem post pre) - t) = 0"
    by (simp add: labs_def)
  with try_scalers_le [OF v, of t post b] labs_nonneg [of "time_ns_best (snd (try_scalers t rem post pre b)) - t"]
  show ?thesis by simp
qed

lemma prescale_search_break:
  "fst (try_scalers t rem post (Suc k) b) \<Longrightarrow>
   prescale_search t rem post (Suc k) b = snd (try_scalers t rem post (Suc k) b)"
  by (cases "try_scalers t rem post (Suc k) b") simp

lemma prescale_search_continue:
  "\<not> fst (try_scalers t rem post (Suc k) b) \<Longrightarrow>
   prescale_search t rem post (Suc k) b =
     prescale_search t rem post k (snd (try_scalers t rem post (Suc k) b))"
  by (cases "try_scalers t rem post (Suc k) b") simp

lemma prescale_search_mono:
  "labs (time_ns_best (prescale_search t rem post k b) - t) \<le> labs (time_ns_best b - t)"
proof (induction k arbitrary: b)
  case 0
  show ?case by (simp add: try_scalers_mono)
next
  case (Suc k)
  let ?b1 = "snd (try_scalers t rem post (Suc k) b)"
  have m: "labs (time_ns_best ?b1 - t) \<le> labs (time_ns_best b - t)"
    by (rule try_scalers_mono)
  show ?case
  proof (cases "fst (try_scalers t rem post (Suc k) b)")
    case True
    with m show ?thesis by (simp only: prescale_search_break)
  next
    case False
    from Suc.IH [of ?b1] m show ?thesis
      unfolding prescale_search_continue [OF False] by linarith
  qed
qed

lemma prescale_search_le:
  "pre \<le> k \<Longrightarrow> valid_period (period_of rem pre) pre \<Longrightarrow>
   labs (time_ns_best (prescale_search t rem post k b) - t)
     \<le> labs (time_ns_best (adopted rem post pre) - t)"
proof (induction k arbitrary: b)
  case 0
  then show ?case by (simp add: try_scalers_le)
next
  case (Suc k)
  let ?b1 = "snd (try_scalers t rem post (Suc k) b)"
  show ?case
  proof (cases "fst (try_scalers t rem post (Suc k) b)")
    case True
    then have "labs (time_ns_best ?b1 - t) = 0"
      by (rule try_scalers_break)
    with labs_nonneg [of "time_ns_best (adopted rem post pre) - t"]
    show ?thesis unfolding prescale_search_break [OF True] by simp
  next
    case False
    show ?thesis
    proof (cases "pre = Suc k")
      case True
      with Suc.prems
      have "labs (time_ns_best ?b1 - t) \<le> labs (time_ns_best (adopted rem post pre) - t)"
        by (simp add: try_scalers_le)
      with prescale_search_mono [of t rem post k ?b1] show ?thesis
        unfolding prescale_search_continue [OF False] by linarith
    next
      case neq: False
      with Suc.prems have "pre \<le> k" by simp
      from Suc.IH [OF this Suc.prems(2), of ?b1] show ?thesis
        unfolding prescale_search_continue [OF False] .
    qed
  qed
qed

lemma prescale_search_origin:
  "prescale_search t rem post k b = b \<or>
   (\<exists>pre\<le>k. valid_period (period_of rem pre) pre \<and>
      prescale_search t rem post k b = adopted rem post pre)"
proof (induction k arbitrary: b)
  case 0
  show ?case using try_scalers_origin [of t rem post 0 b] by simp
next
  case (Suc k)
  let ?b1 = "snd (try_scalers t rem post (Suc k) b)"
  from try_scalers_origin [of t rem post "Suc k" b]
  have o1: "?b1 = b \<or>
      valid_period (period_of rem (Suc k)) (Suc k) \<and> ?b1 = adopted rem post (Suc k)" .
  show ?case
  proof (cases "fst (try_scalers t rem post (Suc k) b)")
    case True
    from o1 show ?thesis
      unfolding prescale_search_break [OF True] by auto
  next
    case False
    from Suc.IH [of ?b1] o1 show ?thesis
      unfolding prescale_search_continue [OF False] by (metis le_Suc_eq order_refl)
  qed
qed

lemma postscale_search_mono:
  "labs (time_ns_best (postscale_search t ticks n b) - t) \<le> labs (time_ns_best b - t)"
proof (induction n arbitrary: b)
  case 0
  show ?case by simp
next
  case (Suc n)
  let ?b1 = "prescale_search t (ticks div of_nat (Suc n)) (Suc n) 7 b"
  from Suc.IH [of ?b1] prescale_search_mono [of t "ticks div of_nat (Suc n)" "Suc n" 7 b]
  have "labs (time_ns_best (postscale_search t ticks n ?b1) - t) \<le> labs (time_ns_best b - t)"
    by linarith
  then show ?case by simp
qed

lemma postscale_search_le:
  "1 \<le> post \<Longrightarrow> post \<le> n \<Longrightarrow> pre \<le> 7 \<Longrightarrow>
   valid_period (period_of (ticks div of_nat post) pre) pre \<Longrightarrow>
   labs (time_ns_best (postscale_search t ticks n b) - t)
     \<le> labs (time_ns_best (adopted (ticks div of_nat post) post pre) - t)"
proof (induction n arbitrary: b)
  case 0
  then show ?case by simp
next
  case (Suc n)
  let ?b1 = "prescale_search t (ticks div of_nat (Suc n)) (Suc n) 7 b"
  have e: "postscale_search t ticks (Suc n) b = postscale_search t ticks n ?b1"
    by simp
  show ?case
  proof (cases "post = Suc n")
    case True
    with Suc.prems
    have "labs (time_ns_best ?b1 - t)
            \<le> labs (time_ns_best (adopted (ticks div of_nat post) post pre) - t)"
      using prescale_search_le [of pre 7 "ticks div of_nat (Suc n)" t "Suc n" b] by simp
    with postscale_search_mono [of t ticks n ?b1] show ?thesis
      unfolding e by linarith
  next
    case False
    with Suc.prems have "post \<le> n" by simp
    from Suc.IH [OF Suc.prems(1) this Suc.prems(3) Suc.prems(4), of ?b1] show ?thesis
      unfolding e .
  qed
qed

lemma postscale_search_origin:
  "postscale_search t ticks n b = b \<or>
   (\<exists>post pre. 1 \<le> post \<and> post \<le> n \<and> pre \<le> 7 \<and>
      valid_period (period_of (ticks div of_nat post) pre) pre \<and>
      postscale_search t ticks n b = adopted (ticks div of_nat post) post pre)"
proof (induction n arbitrary: b)
  case 0
  show ?case by simp
next
  case (Suc n)
  let ?b1 = "prescale_search t (ticks div of_nat (Suc n)) (Suc n) 7 b"
  have e: "postscale_search t ticks (Suc n) b = postscale_search t ticks n ?b1"
    by simp
  from prescale_search_origin [of t "ticks div of_nat (Suc n)" "Suc n" 7 b]
  have o1: "?b1 = b \<or>
     (\<exists>pre\<le>7. valid_period (period_of (ticks div of_nat (Suc n)) pre) pre \<and>
        ?b1 = adopted (ticks div of_nat (Suc n)) (Suc n) pre)" .
  from Suc.IH [of ?b1]
  have o2: "postscale_search t ticks n ?b1 = ?b1 \<or>
     (\<exists>post pre. 1 \<le> post \<and> post \<le> n \<and> pre \<le> 7 \<and>
        valid_period (period_of (ticks div of_nat post) pre) pre \<and>
        postscale_search t ticks n ?b1 = adopted (ticks div of_nat post) post pre)" .
  from o2 show ?case
  proof
    assume s: "postscale_search t ticks n ?b1 = ?b1"
    from o1 show ?thesis
    proof
      assume "?b1 = b"
      with s show ?thesis unfolding e by simp
    next
      assume "\<exists>pre\<le>7. valid_period (period_of (ticks div of_nat (Suc n)) pre) pre \<and>
        ?b1 = adopted (ticks div of_nat (Suc n)) (Suc n) pre"
      then obtain pre where "pre \<le> 7"
        and "valid_period (period_of (ticks div of_nat (Suc n)) pre) pre"
        and "?b1 = adopted (ticks div of_nat (Suc n)) (Suc n) pre" by blast
      with s have "1 \<le> Suc n \<and> Suc n \<le> Suc n \<and> pre \<le> 7 \<and>
        valid_period (period_of (ticks div of_nat (Suc n)) pre) pre \<and>
        postscale_search t ticks (Suc n) b = adopted (ticks div of_nat (Suc n)) (Suc n) pre"
        unfolding e by simp
      then show ?thesis by blast
    qed
  next
    assume "\<exists>post pre. 1 \<le> post \<and> post \<le> n \<and> pre \<le> 7 \<and>
        valid_period (period_of (ticks div of_nat post) pre) pre \<and>
        postscale_search t ticks n ?b1 = adopted (ticks div of_nat post) post pre"
    then obtain post pre where "1 \<le> post" and "post \<le> n" and "pre \<le> 7"
      and "valid_period (period_of (ticks div of_nat post) pre) pre"
      and "postscale_search t ticks n ?b1 = adopted (ticks div of_nat post) post pre"
      by blast
    then have "1 \<le> post \<and> post \<le> Suc n \<and> pre \<le> 7 \<and>
        valid_period (period_of (ticks div of_nat post) pre) pre \<and>
        postscale_search t ticks (Suc n) b = adopted (ticks div of_nat post) post pre"
      unfolding e by simp
    then show ?thesis by blast
  qed
qed

lemma uint_small:
  assumes "unat (x :: u32) < 2 ^ 31"
  shows "- (2 ^ 31) \<le> uint x" and "uint x < 2 ^ 31"
proof -
  have "0 \<le> uint x" and "(0::int) \<le> 2 ^ 31" by simp_all
  then show "- (2 ^ 31) \<le> uint x" by linarith
  have "int (unat x) < int (2 ^ 31)"
    using assms by (simp only: of_nat_less_iff)
  then show "uint x < 2 ^ 31" by (simp only: uint_nat) simp
qed

lemma sint_small: "unat (x :: u32) < 2 ^ 31 \<Longrightarrow> sint x = uint x"
proof -
  assume a: "unat x < 2 ^ 31"
  have "sint x = signed_take_bit (LENGTH(32) - Suc 0) (uint x)"
    by (rule sint_uint)
  also have "\<dots> = signed_take_bit 31 (uint x)"
    by simp
  also have "\<dots> = uint x"
    using uint_small [OF a] by (rule signed_take_bit_int_eq_self)
  finally show ?thesis .
qed

lemma labs_in_range:
  assumes "unat (x :: u32) < 2 ^ 31" and "unat (t :: u32) < 2 ^ 31"
  shows "labs (x - t) = \<bar>uint x - uint t\<bar>"
proof -
  have "sint (x - t) = signed_take_bit (LENGTH(32) - 1) (sint x - sint t)"
    by (rule sint_word_diff)
  also have "\<dots> = signed_take_bit 31 (uint x - uint t)"
    using assms by (simp add: sint_small)
  also have "\<dots> = uint x - uint t"
  proof (rule signed_take_bit_int_eq_self)
    have "0 \<le> uint x" and "0 \<le> uint t" by simp_all
    with uint_small [OF assms(1)] uint_small [OF assms(2)]
    show "- (2 ^ 31) \<le> uint x - uint t" and "uint x - uint t < 2 ^ 31"
      by linarith+
  qed
  finally show ?thesis by (simp add: labs_def)
qed

lemma valid_period_unat:
  "valid_period p pre \<Longrightarrow> 1 \<le> unat p \<and> unat p \<le> 255"
  by (simp add: valid_period_def word_le_nat_alt word_less_nat_alt)

lemma time_ns_of_unat:
  assumes "pre \<le> 7" and "post \<le> 16" and "unat p \<le> 255"
  shows "unat (time_ns_of pre p post) = 3125 * 2 ^ pre * unat p * post div 100"
proof -
  have p2: "(2::nat) ^ pre \<le> 2 ^ 7"
    using assms(1) by (intro power_increasing) simp_all
  have a: "unat (push_bit pre (3125 :: u32)) = 3125 * 2 ^ pre"
  proof -
    have "push_bit pre (3125 :: u32) = of_nat (3125 * 2 ^ pre)"
      by (simp add: push_bit_eq_mult)
    moreover have "(3125 * 2 ^ pre :: nat) < 2 ^ 32"
      using p2 by simp
    ultimately show ?thesis
      by (simp only: unat_of_nat) simp
  qed
  have b1: "3125 * 2 ^ pre * unat p \<le> 3125 * 2 ^ 7 * 255"
    using p2 assms(3) by (intro mult_le_mono) simp_all
  have n1: "(3125 * 2 ^ 7 * 255 :: nat) < 2 ^ LENGTH(32)"
    by simp
  have blt: "unat (push_bit pre (3125 :: u32)) * unat p < 2 ^ LENGTH(32)"
    unfolding a using b1 n1 by (rule le_less_trans)
  have b: "unat (push_bit pre (3125 :: u32) * p) = 3125 * 2 ^ pre * unat p"
    using blt [THEN unat_mult_lem [THEN iffD1]] by (simp only: a)
  have c0: "unat (of_nat post :: u32) = post"
    using assms(2) by (simp add: unat_of_nat)
  have c1: "3125 * 2 ^ pre * unat p * post \<le> 3125 * 2 ^ 7 * 255 * 16"
    using b1 assms(2) by (rule mult_le_mono)
  have n2: "(3125 * 2 ^ 7 * 255 * 16 :: nat) < 2 ^ LENGTH(32)"
    by simp
  have clt: "unat (push_bit pre (3125 :: u32) * p) * unat (of_nat post :: u32) < 2 ^ LENGTH(32)"
    unfolding b c0 using c1 n2 by (rule le_less_trans)
  have c: "unat (push_bit pre (3125 :: u32) * p * of_nat post) = 3125 * 2 ^ pre * unat p * post"
    using clt [THEN unat_mult_lem [THEN iffD1]] by (simp only: b c0)
  show ?thesis
    by (simp add: time_ns_of_def strobe_consts unat_div c)
qed

lemma adopted_time: 
  "time_ns_best (adopted (ticks div of_nat post) post pre) = candidate_time ticks post pre"
  by (simp add: adopted_def candidate_time_def candidate_period_def)

lemma search_origin:
  "postscale_search t ticks 16 best_init = best_init \<or>
   (\<exists>post pre. candidate_valid ticks post pre \<and>
      postscale_search t ticks 16 best_init = adopted (ticks div of_nat post) post pre)"
  using postscale_search_origin [of t ticks 16 best_init]
  by (auto simp add: candidate_valid_def candidate_period_def)

lemma search_le:
  assumes "candidate_valid ticks post pre"
  shows "labs (time_ns_best (postscale_search t ticks 16 best_init) - t)
           \<le> labs (candidate_time ticks post pre - t)"
  using assms postscale_search_le [of post 16 pre ticks t best_init]
  by (simp add: candidate_valid_def candidate_period_def adopted_time)

lemma candidate_time_unat:
  assumes "candidate_valid ticks post pre"
  shows "unat (candidate_time ticks post pre) =
           3125 * 2 ^ pre * unat (candidate_period ticks post pre) * post div 100"
  using assms valid_period_unat [of "candidate_period ticks post pre" pre]
  by (simp add: candidate_valid_def candidate_time_def time_ns_of_unat)

lemma candidate_time_bound:
  assumes "candidate_valid ticks post pre"
  shows "unat (candidate_time ticks post pre) \<le> 16320000"
proof -
  from assms have pre: "pre \<le> 7" and post: "post \<le> 16"
    and p: "unat (candidate_period ticks post pre) \<le> 255"
    using valid_period_unat [of "candidate_period ticks post pre" pre]
    by (simp_all add: candidate_valid_def)
  have "(2::nat) ^ pre \<le> 2 ^ 7"
    using pre by (intro power_increasing) simp_all
  then have "3125 * 2 ^ pre * unat (candidate_period ticks post pre) \<le> 3125 * 2 ^ 7 * 255"
    using p by (intro mult_le_mono) simp_all
  then have "3125 * 2 ^ pre * unat (candidate_period ticks post pre) * post
               \<le> 3125 * 2 ^ 7 * 255 * 16"
    using post by (rule mult_le_mono)
  then have "3125 * 2 ^ pre * unat (candidate_period ticks post pre) * post div 100
               \<le> 3125 * 2 ^ 7 * 255 * 16 div 100"
    by (rule div_le_mono)
  then show ?thesis
    by (simp add: candidate_time_unat [OF assms])
qed

lemma store_adopted:
  assumes "candidate_valid ticks post pre"
  shows "unat (prescale (store_best (adopted (ticks div of_nat post) post pre))) = pre"
    and "unat (postscale (store_best (adopted (ticks div of_nat post) post pre))) + 1 = post"
    and "unat (period (store_best (adopted (ticks div of_nat post) post pre))) + 1 =
           unat (candidate_period ticks post pre)"
proof -
  from assms have pre: "pre \<le> 7" and post: "1 \<le> post" "post \<le> 16"
    and p: "1 \<le> unat (candidate_period ticks post pre)"
           "unat (candidate_period ticks post pre) \<le> 255"
    using valid_period_unat [of "candidate_period ticks post pre" pre]
    by (simp_all add: candidate_valid_def)
  show "unat (prescale (store_best (adopted (ticks div of_nat post) post pre))) = pre"
    using pre by (simp add: store_best_def adopted_def unat_of_nat)
  have up: "unat (of_nat post :: u8) = post"
    using post by (simp add: unat_of_nat)
  with post have "(of_nat post :: u8) \<noteq> 0"
    by (metis not_one_le_zero unat_0)
  then have "unat (of_nat post - 1 :: u8) = unat (of_nat post :: u8) - 1"
    by (rule unat_minus_one)
  with up post
  show "unat (postscale (store_best (adopted (ticks div of_nat post) post pre))) + 1 = post"
    by (simp add: store_best_def adopted_def)
  let ?p = "candidate_period ticks post pre"
  from p have "?p \<noteq> 0"
    by (metis not_one_le_zero unat_0)
  then have m: "unat (?p - 1) = unat ?p - 1"
    by (rule unat_minus_one)
  have "unat (ucast (?p - 1) :: u8) = take_bit LENGTH(8) (unat (?p - 1))"
    by (rule unsigned_ucast_eq)
  also have "\<dots> = unat (?p - 1)"
    using p m by (intro take_bit_nat_eq_self) simp
  finally have "unat (ucast (?p - 1) :: u8) = unat ?p - 1"
    using m by simp
  with p
  show "unat (period (store_best (adopted (ticks div of_nat post) post pre))) + 1 = unat ?p"
    by (simp add: store_best_def adopted_def candidate_period_def)
qed

lemma find_scalers_time_in_range:
  "target_time_ns \<le> MAX_TIME_NS \<Longrightarrow>
   find_scalers_time target_time_ns outs =
     (time_ns_best (postscale_search target_time_ns (ticks_of target_time_ns) 16 best_init),
      store_best (postscale_search target_time_ns (ticks_of target_time_ns) 16 best_init))"
  by (simp add: find_scalers_time_def Let_def not_less [symmetric])

lemma in_range_unat: "target_time_ns \<le> MAX_TIME_NS \<Longrightarrow> unat target_time_ns \<le> 16320000"
  by (simp add: MAX_TIME_NS_value word_le_nat_alt)

lemma ucast_minus_one: "(ucast (- 1 :: u32) :: u8) = 255"
proof -
  have "(ucast (- 1 :: u32) :: u8) = - 1"
    by (rule bit_word_eqI) (simp add: bit_simps)
  also have "(- 1 :: u8) = 255"
    by simp
  finally show ?thesis .
qed

lemma period_of_zero: "period_of 0 pre = 0"
  by (simp add: period_of_def)

lemma no_valid_candidate_zero: "no_valid_candidate 0"
  by (simp add: no_valid_candidate_def candidate_valid_def candidate_period_def period_of_zero
      valid_period_def)

lemma store_best_init:
  "time_ns_best best_init = 0"
  "store_best best_init = \<lparr>prescale = 0, postscale = 255, period = 255\<rparr>"
  by (simp_all add: best_init_def store_best_def ucast_minus_one)

lemma search_nothing_valid:
  "no_valid_candidate ticks \<Longrightarrow> postscale_search t ticks 16 best_init = best_init"
  using search_origin [of t ticks]
  by (auto simp add: no_valid_candidate_def candidate_valid_def)

lemma ticks_of_16950: "ticks_of 16950 = 542"
  by (simp add: ticks_of_def strobe_consts)

lemma search_16950:
  "postscale_search 16950 542 16 best_init =
     \<lparr>time_ns_best = 17000, postscale_best = 16, prescale_best = 1, period_best = 17\<rparr>"
  by (simp add: search_unroll)

lemma find_scalers_time_16950:
  "find_scalers_time 16950 outs = (17000, \<lparr>prescale = 1, postscale = 15, period = 16\<rparr>)"
  by (simp add: find_scalers_time_def MAX_TIME_NS_value ticks_of_16950 search_16950 store_best_def)

lemma ticks_of_16: "ticks_of 16 = 1"
  by (simp add: ticks_of_def strobe_consts)

lemma search_16: "postscale_search 16 1 16 best_init = best_init"
  by (simp add: search_unroll)

lemma find_scalers_time_16:
  "find_scalers_time 16 outs = (0, \<lparr>prescale = 0, postscale = 255, period = 255\<rparr>)"
  by (simp add: find_scalers_time_in_range MAX_TIME_NS_value ticks_of_16 search_16
      store_best_init)

lemma ticks_of_32: "ticks_of 32 = 1"
  by (simp add: ticks_of_def strobe_consts)

lemma search_32:
  "postscale_search 32 1 16 best_init =
     \<lparr>time_ns_best = 62, postscale_best = 1, prescale_best = 1, period_best = 1\<rparr>"
  by (simp add: search_unroll)

lemma find_scalers_time_32:
  "find_scalers_time 32 outs = (62, \<lparr>prescale = 1, postscale = 0, period = 0\<rparr>)"
  by (simp add: find_scalers_time_def MAX_TIME_NS_value ticks_of_32 search_32 store_best_def)

lemma ticks_of_0: "ticks_of 0 = 0"
  by (simp add: ticks_of_def strobe_consts)

lemma ticks_of_15: "ticks_of 15 = 0"
  by (simp add: ticks_of_def strobe_consts)

lemmas candidate_defs = candidate_valid_def candidate_time_def candidate_period_def
  period_of_def valid_period_def time_ns_of_def strobe_consts

section \<open>Trigger mode\<close>

text \<open>C7. For every \<^verbatim>\<open>mode\<close> byte, \<^verbatim>\<open>set_trigger_mode\<close> entering Hardware mode (mode 1)
  enables the gate-capture interrupt \<^verbatim>\<open>TMR1IE\<close> and then clears the pending flag
  \<^verbatim>\<open>TMR1IF\<close>; entering Software mode (any other byte), whatever the state before,
  leaves \<^verbatim>\<open>TMR1IE\<close> disabled; and in both directions \<^verbatim>\<open>strobe_enabled\<close> keeps its
  value.\<close>

theorem set_trigger_mode_gate_interrupt:
  "(mode = 1 \<longrightarrow>
      trigger_mode (set_trigger_mode mode st) = 1 \<and>
      TMR1IE (set_trigger_mode mode st) \<and> \<not> TMR1IF (set_trigger_mode mode st) \<and>
      hw_log (set_trigger_mode mode st) = hw_log st @ [Write_TMR1IE True, Write_TMR1IF False]) \<and>
   (mode \<noteq> 1 \<longrightarrow>
      trigger_mode (set_trigger_mode mode st) = 0 \<and>
      \<not> TMR1IE (set_trigger_mode mode st) \<and>
      hw_log (set_trigger_mode mode st) = hw_log st @ [Write_TMR1IE False]) \<and>
   strobe_enabled (set_trigger_mode mode st) = strobe_enabled st"
  by (simp add: set_trigger_mode_def write_defs)

text \<open>Hardware mode entered from the reset state; then Software mode entered from Hardware
  mode with the strobe enabled and the wait timer held off, waiting for an edge.\<close>

theorem set_trigger_mode_gate_interrupt_witness:
  "TMR1IE (set_trigger_mode 1 reset_state) \<and>
   \<not> TMR1IF (set_trigger_mode 1 reset_state) \<and>
   \<not> TMR1IE (set_trigger_mode 0 (set_strobe_enable 1 (set_trigger_mode 1 reset_state))) \<and>
   strobe_enabled (set_trigger_mode 0 (set_strobe_enable 1 (set_trigger_mode 1 reset_state))) = 1"
  using set_trigger_mode_gate_interrupt [of 1 reset_state]
    set_trigger_mode_gate_interrupt
      [of 0 "set_strobe_enable 1 (set_trigger_mode 1 reset_state)"]
  by (simp add: set_trigger_mode_def set_strobe_enable_def write_defs reset_state_def)

section \<open>Malformed packets\<close>

text \<open>C8. For each of the five recognised commands, a payload size other than the expected
  one (1 byte for SET_STROBE_ENABLE, SET_STROBE_HOLD and SET_TRIGGER_MODE, 8 for
  SET_STROBE_TIMING, 0 for GET_CAM_READ_TIME) makes the dispatcher answer with the status
  PACKET_INVALID alone and leave the whole state as it was: trigger mode, enable state,
  hold, timer registers, camera read time, and no register is written.\<close>

theorem dispatch_size_mismatch:
  assumes "(packet_type = PACKET_TYPE_SET_STROBE_ENABLE \<or>
            packet_type = PACKET_TYPE_SET_STROBE_HOLD \<or>
            packet_type = PACKET_TYPE_SET_TRIGGER_MODE) \<and> packet_data_size \<noteq> 1
           \<or> packet_type = PACKET_TYPE_SET_STROBE_TIMING \<and> packet_data_size \<noteq> 8
           \<or> packet_type = PACKET_TYPE_GET_CAM_READ_TIME \<and> packet_data_size \<noteq> 0"
  shows "dispatch wait_locals duration_locals packet_type packet_data packet_data_size st =
           (st, Some (packet_type, ERR_PACKET_INVALID, []))"
  using assms by (auto simp add: dispatch_def packet_type_defs)

theorem dispatch_size_mismatch_witness:
  "dispatch stale_scalers stale_scalers PACKET_TYPE_SET_STROBE_TIMING
       [64, 66, 15, 0, 32, 161, 7, 0] 7 reset_state =
     (reset_state, Some (PACKET_TYPE_SET_STROBE_TIMING, ERR_PACKET_INVALID, [])) \<and>
   dispatch stale_scalers stale_scalers PACKET_TYPE_SET_TRIGGER_MODE
       [1, 0, 0, 0, 0, 0, 0, 0] 2 reset_state =
     (reset_state, Some (PACKET_TYPE_SET_TRIGGER_MODE, ERR_PACKET_INVALID, [])) \<and>
   dispatch stale_scalers stale_scalers PACKET_TYPE_GET_CAM_READ_TIME
       [9, 0, 0, 0, 0, 0, 0, 0] 1 reset_state =
     (reset_state, Some (PACKET_TYPE_GET_CAM_READ_TIME, ERR_PACKET_INVALID, []))"
  using
    dispatch_size_mismatch [of PACKET_TYPE_SET_STROBE_TIMING 7 stale_scalers stale_scalers
      "[64, 66, 15, 0, 32, 161, 7, 0]" reset_state]
    dispatch_size_mismatch [of PACKET_TYPE_SET_TRIGGER_MODE 2 stale_scalers stale_scalers
      "[1, 0, 0, 0, 0, 0, 0, 0]" reset_state]
    dispatch_size_mismatch [of PACKET_TYPE_GET_CAM_READ_TIME 1 stale_scalers stale_scalers
      "[9, 0, 0, 0, 0, 0, 0, 0]" reset_state]
  by simp

section \<open>Gate edges\<close>


lemma set_trigger_mode_follows_mode:
  "PEIE st \<Longrightarrow> gate_interrupt_follows_mode (set_trigger_mode mode st)"
  by (simp add: gate_interrupt_follows_mode_def set_trigger_mode_def write_defs Let_def)

lemma set_strobe_enable_follows_mode:
  "gate_interrupt_follows_mode st \<Longrightarrow> gate_interrupt_follows_mode (set_strobe_enable enable st)"
  by (simp add: gate_interrupt_follows_mode_def set_strobe_enable_def write_defs Let_def)

lemma set_strobe_hold_follows_mode:
  "gate_interrupt_follows_mode st \<Longrightarrow> gate_interrupt_follows_mode (set_strobe_hold hold st)"
  by (simp add: gate_interrupt_follows_mode_def set_strobe_hold_def write_defs)

lemma set_strobe_timing_follows_mode:
  "gate_interrupt_follows_mode st \<Longrightarrow>
   gate_interrupt_follows_mode (snd (snd (set_strobe_timing w d wl dl st)))"
  by (simp add: gate_interrupt_follows_mode_def set_strobe_timing_def write_defs Let_def
      split: prod.split)

lemma dispatch_follows_mode:
  "gate_interrupt_follows_mode st \<Longrightarrow>
   gate_interrupt_follows_mode (fst (dispatch wl dl packet_type packet_data packet_data_size st))"
proof -
  assume a: "gate_interrupt_follows_mode st"
  then have p: "PEIE st"
    by (simp add: gate_interrupt_follows_mode_def)
  have t: "gate_interrupt_follows_mode st'"
    if "set_strobe_timing w d wl dl st = (wn, dn, st')" for w d wn dn st'
    using set_strobe_timing_follows_mode [OF a, of w d wl dl] that by simp
  show ?thesis
    using a t
    by (auto simp add: dispatch_def set_trigger_mode_follows_mode [OF p]
        set_strobe_enable_follows_mode set_strobe_hold_follows_mode split: prod.split)
qed

lemma gate_edge_event_follows_mode:
  assumes "\<not> (IOCIE st \<and> IOCIF st)" and "\<not> (SSP1IE st \<and> SSP1IF st)"
    and "gate_interrupt_follows_mode st"
  shows "gate_interrupt_follows_mode (gate_edge_event ioc spi st)"
  using assms
  by (auto simp add: gate_interrupt_follows_mode_def gate_edge_event_def gate_edge_pending_def
      INTERRUPT_InterruptManager_def hardware_trigger_strobe_def main_gate_poll_def write_defs
      Let_def)

lemma reset_state_follows_mode: "gate_interrupt_follows_mode reset_state"
  by (simp add: gate_interrupt_follows_mode_def reset_state_def)



section \<open>Timing updates\<close>

text \<open>C3. \<^verbatim>\<open>set_strobe_timing\<close> is all-or-nothing. It returns the two achieved times of
  the two searches. When either is zero the state after the call is the state before it:
  \<^verbatim>\<open>PR2\<close>, \<^verbatim>\<open>PR4\<close>, \<^verbatim>\<open>T2CON\<close> and \<^verbatim>\<open>T4CON\<close> keep their values and nothing is
  written. Only when both are nonzero are the four registers written, with the dividers
  the two searches stored and the enable bit of each control register kept.\<close>

theorem set_strobe_timing_all_or_nothing:
  assumes "find_scalers_time wait_target_ns wait_locals = (wait_ns, wait)"
    and "find_scalers_time duration_target_ns duration_locals = (duration_ns, duration)"
    and "set_strobe_timing wait_target_ns duration_target_ns wait_locals duration_locals st =
           (wait_ns', duration_ns', st')"
  shows "wait_ns' = wait_ns \<and> duration_ns' = duration_ns \<and>
         (wait_ns = 0 \<or> duration_ns = 0 \<longrightarrow> st' = st) \<and>
         (wait_ns \<noteq> 0 \<and> duration_ns \<noteq> 0 \<longrightarrow>
            PR2 st' = period wait \<and> PR4 st' = period duration \<and>
            T2CON st' = (T2CON st AND 0x80) OR push_bit 4 (prescale wait) OR postscale wait \<and>
            T4CON st' = (T4CON st AND 0x80) OR push_bit 4 (prescale duration)
                          OR postscale duration \<and>
            hw_log st' = hw_log st @
              [Write_T4CON 0, Write_PR2 (period wait), Write_PR4 (period duration),
               Write_T2CON (T2CON st'), Write_T4CON (T4CON st')])"
  using assms
  by (auto simp add: set_strobe_timing_def write_defs Let_def word_greater_zero_iff split: if_splits)

theorem set_strobe_timing_all_or_nothing_witness:
  "set_strobe_timing 1000000 20000000 stale_scalers stale_scalers reset_state =
     (1000000, 0, reset_state) \<and>
   set_strobe_timing 1000000 1000000 stale_scalers stale_scalers reset_state =
     (1000000, 1000000,
      reset_state\<lparr>T2CON := 0x4F, T4CON := 0x4F, PR2 := 124, PR4 := 124,
        hw_log := [Write_T4CON 0, Write_PR2 124, Write_PR4 124, Write_T2CON 0x4F,
                   Write_T4CON 0x4F]\<rparr>)"
proof -
  have w: "find_scalers_time 1000000 stale_scalers =
             (1000000, \<lparr>prescale = 4, postscale = 15, period = 124\<rparr>)"
    by (rule find_scalers_time_1000000)
  have d: "find_scalers_time 20000000 stale_scalers = (0, stale_scalers)"
    by (simp add: find_scalers_time_above_max MAX_TIME_NS_value)
  have r1: "set_strobe_timing 1000000 20000000 stale_scalers stale_scalers reset_state =
              (1000000, 0, reset_state)"
    by (simp add: set_strobe_timing_def w d)
  have r2: "set_strobe_timing 1000000 1000000 stale_scalers stale_scalers reset_state =
     (1000000, 1000000,
      reset_state\<lparr>T2CON := 0x4F, T4CON := 0x4F, PR2 := 124, PR4 := 124,
        hw_log := [Write_T4CON 0, Write_PR2 124, Write_PR4 124, Write_T2CON 0x4F,
                   Write_T4CON 0x4F]\<rparr>)"
    by (simp add: set_strobe_timing_def w write_defs reset_state_def)
  from set_strobe_timing_all_or_nothing [OF w d r1]
    set_strobe_timing_all_or_nothing [OF w w r2] r1 r2
  show ?thesis by blast
qed

text \<open>C10. A SET_STROBE_TIMING request with a payload of exactly 8 bytes is answered with
  status OK and the two achieved times, whatever the two searches return. The state is
  left as it was exactly when one of the achieved times is zero, and an achieved time is
  zero exactly when its four response bytes are zero: a rejected update shows in the
  response as a zero achieved time and never in the status.\<close>

theorem timing_request_status_ok:
  assumes "packet_data_size = 8"
    and "set_strobe_timing (load_u32 packet_data 0) (load_u32 packet_data 4)
           wait_locals duration_locals st = (wait_ns, duration_ns, st')"
  shows "dispatch wait_locals duration_locals PACKET_TYPE_SET_STROBE_TIMING packet_data
           packet_data_size st =
           (st', Some (PACKET_TYPE_SET_STROBE_TIMING, ERR_OK,
                       bytes_u32 wait_ns @ bytes_u32 duration_ns)) \<and>
         (st' = st \<longleftrightarrow> wait_ns = 0 \<or> duration_ns = 0) \<and>
         (bytes_u32 wait_ns = [0, 0, 0, 0] \<longleftrightarrow> wait_ns = 0) \<and>
         (bytes_u32 duration_ns = [0, 0, 0, 0] \<longleftrightarrow> duration_ns = 0)"
proof -
  have "dispatch wait_locals duration_locals PACKET_TYPE_SET_STROBE_TIMING packet_data
           packet_data_size st =
           (st', Some (PACKET_TYPE_SET_STROBE_TIMING, ERR_OK,
                       bytes_u32 wait_ns @ bytes_u32 duration_ns))"
    using assms by (simp add: dispatch_def packet_type_defs)
  moreover have "st' = st \<longleftrightarrow> wait_ns = 0 \<or> duration_ns = 0"
  proof (cases "wait_ns = 0 \<or> duration_ns = 0")
    case True
    with assms(2) show ?thesis
      by (auto simp add: set_strobe_timing_def Let_def word_greater_zero_iff
          split: prod.splits if_splits)
  next
    case False
    with assms(2) have "length (hw_log st') = length (hw_log st) + 5"
      by (auto simp add: set_strobe_timing_def Let_def word_greater_zero_iff write_defs
          split: prod.splits if_splits)
    then have "st' \<noteq> st" by auto
    with False show ?thesis by simp
  qed
  ultimately show ?thesis by (simp add: bytes_u32_zero_iff)
qed

theorem timing_request_status_ok_witness:
  "dispatch stale_scalers stale_scalers PACKET_TYPE_SET_STROBE_TIMING
     [0x40, 0x42, 0x0F, 0x00, 0x00, 0x2D, 0x31, 0x01] 8 reset_state =
     (reset_state, Some (PACKET_TYPE_SET_STROBE_TIMING, ERR_OK,
                         [0x40, 0x42, 0x0F, 0x00, 0, 0, 0, 0]))"
proof -
  have w: "load_u32 [0x40, 0x42, 0x0F, 0x00, 0x00, 0x2D, 0x31, 0x01] 0 = 1000000"
    by (simp add: load_u32_def)
  have d: "load_u32 [0x40, 0x42, 0x0F, 0x00, 0x00, 0x2D, 0x31, 0x01] 4 = 20000000"
    by (simp add: load_u32_def)
  have r: "set_strobe_timing (load_u32 [0x40, 0x42, 0x0F, 0x00, 0x00, 0x2D, 0x31, 0x01] 0)
             (load_u32 [0x40, 0x42, 0x0F, 0x00, 0x00, 0x2D, 0x31, 0x01] 4)
             stale_scalers stale_scalers reset_state = (1000000, 0, reset_state)"
    by (simp add: w d set_strobe_timing_def find_scalers_time_1000000
        find_scalers_time_above_max MAX_TIME_NS_value)
  have b: "bytes_u32 1000000 = [0x40, 0x42, 0x0F, 0x00]"
    by (simp add: bytes_u32_def)
  from timing_request_status_ok [OF refl r] b show ?thesis
    by (simp add: bytes_u32_def)
qed

text \<open>C9, as the spec states it: the gate interrupt is disabled while a timing update is
  written and enabled again afterwards. It fails: in Hardware mode with \<^verbatim>\<open>TMR1IE\<close> set,
  a timing update performs its five register writes and no write to \<^verbatim>\<open>TMR1IE\<close>.\<close>

theorem set_strobe_timing_gate_interrupt_counterexample:
  "TMR1IE hardware_armed \<and> trigger_mode hardware_armed = 1 \<and>
   hw_log (snd (snd (set_strobe_timing 1000000 1000000 stale_scalers stale_scalers
                       hardware_armed))) =
     hw_log hardware_armed @
       [Write_T4CON 0, Write_PR2 124, Write_PR4 124, Write_T2CON 0x4F, Write_T4CON 0xCF]"
  by (simp add: set_strobe_timing_def find_scalers_time_1000000 write_defs
      hardware_armed_value reset_state_def)

text \<open>C9, amended. \<^verbatim>\<open>set_strobe_timing\<close> never writes the gate interrupt enable:
  \<^verbatim>\<open>TMR1IE\<close> has after the call the value it had before, and none of the writes the call
  performs is a write to it. In Hardware mode the gate interrupt therefore stays enabled
  while the divider registers are written.\<close>

theorem set_strobe_timing_keeps_gate_interrupt:
  assumes "set_strobe_timing wait_target_ns duration_target_ns wait_locals duration_locals st =
             (wait_ns, duration_ns, st')"
  shows "TMR1IE st' = TMR1IE st \<and>
         (\<exists>ops. hw_log st' = hw_log st @ ops \<and> (\<forall>v. Write_TMR1IE v \<notin> set ops))"
  using assms
  by (auto simp add: set_strobe_timing_def Let_def write_defs split: prod.splits if_splits)

theorem set_strobe_timing_keeps_gate_interrupt_witness:
  "TMR1IE (snd (snd (set_strobe_timing 1000000 20000000 stale_scalers stale_scalers
                       hardware_armed))) \<and>
   TMR1IE (snd (snd (set_strobe_timing 1000000 1000000 stale_scalers stale_scalers
                       hardware_armed)))"
  using
    set_strobe_timing_keeps_gate_interrupt
      [of 1000000 20000000 stale_scalers stale_scalers hardware_armed
          "fst (set_strobe_timing 1000000 20000000 stale_scalers stale_scalers hardware_armed)"
          "fst (snd (set_strobe_timing 1000000 20000000 stale_scalers stale_scalers hardware_armed))"
          "snd (snd (set_strobe_timing 1000000 20000000 stale_scalers stale_scalers hardware_armed))"]
    set_strobe_timing_keeps_gate_interrupt
      [of 1000000 1000000 stale_scalers stale_scalers hardware_armed
          "fst (set_strobe_timing 1000000 1000000 stale_scalers stale_scalers hardware_armed)"
          "fst (snd (set_strobe_timing 1000000 1000000 stale_scalers stale_scalers hardware_armed))"
          "snd (snd (set_strobe_timing 1000000 1000000 stale_scalers stale_scalers hardware_armed))"]
  by (simp add: hardware_armed_value reset_state_def)

section \<open>The range of the search\<close>

text \<open>C2, as the spec states it: the limit is the tick period times \<open>2^7 * 256 * 16\<close>, that
  is 16384000 ns, and every target at or below it is searched. It fails at 16320001 ns:
  the target is below that limit, the search would reach 16320000 ns, and the function
  returns zero without storing anything.\<close>

theorem find_scalers_time_limit_counterexample:
  "(16320001::nat) \<le> 31250 * 2 ^ 7 * 256 * 16 div 1000 \<and>
   find_scalers_time 16320001 stale_scalers = (0, stale_scalers) \<and>
   time_ns_best (postscale_search 16320001 (ticks_of 16320001) 16 best_init) = 16320000"
  by (simp add: find_scalers_time_def MAX_TIME_NS_value ticks_of_16320001 search_16320001)

text \<open>C2, amended. The limit \<^verbatim>\<open>MAX_TIME_NS\<close> is the tick period times
  \<open>2^7 * 255 * 16\<close>, that is 16320000 ns. For every target strictly greater the function
  returns zero and leaves the three output cells as they were; for every target at or
  below it the function runs the search and returns what the search found.\<close>

theorem find_scalers_time_limit:
  "unat MAX_TIME_NS = 31250 * 2 ^ 7 * 255 * 16 div 1000 \<and>
   (MAX_TIME_NS < target_time_ns \<longrightarrow> find_scalers_time target_time_ns outs = (0, outs)) \<and>
   (target_time_ns \<le> MAX_TIME_NS \<longrightarrow>
      find_scalers_time target_time_ns outs =
        (time_ns_best (postscale_search target_time_ns (ticks_of target_time_ns) 16 best_init),
         store_best (postscale_search target_time_ns (ticks_of target_time_ns) 16 best_init)))"
proof (intro conjI impI)
  show "unat MAX_TIME_NS = 31250 * 2 ^ 7 * 255 * 16 div 1000"
    by (simp add: MAX_TIME_NS_value)
next
  assume "MAX_TIME_NS < target_time_ns"
  then show "find_scalers_time target_time_ns outs = (0, outs)"
    by (simp add: find_scalers_time_def)
next
  assume "target_time_ns \<le> MAX_TIME_NS"
  then have "\<not> MAX_TIME_NS < target_time_ns"
    by (simp add: not_less)
  then show "find_scalers_time target_time_ns outs =
        (time_ns_best (postscale_search target_time_ns (ticks_of target_time_ns) 16 best_init),
         store_best (postscale_search target_time_ns (ticks_of target_time_ns) 16 best_init))"
    by (simp add: find_scalers_time_def Let_def)
qed

text \<open>One target above the limit and one below it.\<close>

theorem find_scalers_time_limit_witness:
  "MAX_TIME_NS < 16320001 \<and> find_scalers_time 16320001 stale_scalers = (0, stale_scalers) \<and>
   1000000 \<le> MAX_TIME_NS \<and>
   find_scalers_time 1000000 stale_scalers =
     (1000000, \<lparr>prescale = 4, postscale = 15, period = 124\<rparr>)"
  using find_scalers_time_limit [of 16320001 stale_scalers]
    find_scalers_time_limit [of 1000000 stale_scalers]
  by (simp add: MAX_TIME_NS_value ticks_of_1000000 search_1000000 store_best_def)

section \<open>The result of the search\<close>

text \<open>C1, as the spec states it: the achieved time is the closest reachable value among
  all valid combinations of prescale 0 to 7, postscale 1 to 16 and period 1 to 255. It
  fails at 16950 ns: the function returns 17000 ns, while prescale 0, period 181 and
  postscale 3 pass the test of line 95 and give 16968 ns, which is closer.\<close>

theorem find_scalers_time_closest_counterexample:
  "16950 \<le> MAX_TIME_NS \<and>
   find_scalers_time 16950 stale_scalers =
     (17000, \<lparr>prescale = 1, postscale = 15, period = 16\<rparr>) \<and>
   valid_period 181 0 \<and> time_ns_of 0 181 3 = 16968 \<and>
   \<bar>16968 - 16950\<bar> < \<bar>17000 - (16950 :: int)\<bar>"
  by (simp add: MAX_TIME_NS_value find_scalers_time_16950 valid_period_def time_ns_of_def
      strobe_consts)

text \<open>C1, amended. For each postscale 1 to 16 and each prescale 0 to 7 the search examines
  one period only, the rounded quotient of lines 86 to 93. For every target up to
  \<^verbatim>\<open>MAX_TIME_NS\<close> the achieved time is either zero or the time of one of these
  combinations that passes the test of line 95; it is at least as close to the target as
  zero is, and at least as close as the time of every such combination.\<close>

theorem find_scalers_time_closest_examined:
  assumes "target_time_ns \<le> MAX_TIME_NS"
    and "find_scalers_time target_time_ns outs = (achieved_ns, s)"
  shows "(achieved_ns = 0 \<or>
          (\<exists>post pre. candidate_valid (ticks_of target_time_ns) post pre \<and>
             achieved_ns = candidate_time (ticks_of target_time_ns) post pre)) \<and>
         \<bar>uint achieved_ns - uint target_time_ns\<bar> \<le> uint target_time_ns \<and>
         (\<forall>post pre. candidate_valid (ticks_of target_time_ns) post pre \<longrightarrow>
            \<bar>uint achieved_ns - uint target_time_ns\<bar>
              \<le> \<bar>uint (candidate_time (ticks_of target_time_ns) post pre)
                   - uint target_time_ns\<bar>)"
proof -
  let ?ticks = "ticks_of target_time_ns"
  let ?b = "postscale_search target_time_ns ?ticks 16 best_init"
  from assms have a: "achieved_ns = time_ns_best ?b"
    by (simp add: find_scalers_time_in_range)
  have origin: "achieved_ns = 0 \<or>
          (\<exists>post pre. candidate_valid ?ticks post pre \<and>
             achieved_ns = candidate_time ?ticks post pre)"
  proof -
    from search_origin [of target_time_ns ?ticks]
    consider "?b = best_init"
      | post pre where "candidate_valid ?ticks post pre"
          and "?b = adopted (?ticks div of_nat post) post pre"
      by blast
    then show ?thesis
    proof cases
      case 1
      then show ?thesis unfolding a by (simp add: best_init_def)
    next
      case 2
      then show ?thesis unfolding a by (auto simp add: adopted_time)
    qed
  qed
  have t31: "unat target_time_ns < 2 ^ 31"
    using in_range_unat [OF assms(1)] by simp
  have "unat achieved_ns \<le> 16320000"
    using origin candidate_time_bound by auto
  then have a31: "unat achieved_ns < 2 ^ 31"
    by simp
  have d: "labs (achieved_ns - target_time_ns) = \<bar>uint achieved_ns - uint target_time_ns\<bar>"
    using a31 t31 by (rule labs_in_range)
  have "labs (achieved_ns - target_time_ns) \<le> labs (time_ns_best best_init - target_time_ns)"
    unfolding a by (rule postscale_search_mono)
  also have "\<dots> = labs (0 - target_time_ns)"
    by (simp add: best_init_def)
  also have "\<dots> = \<bar>uint (0 :: u32) - uint target_time_ns\<bar>"
    using t31 by (intro labs_in_range) simp_all
  finally have zero: "\<bar>uint achieved_ns - uint target_time_ns\<bar> \<le> uint target_time_ns"
    unfolding d by simp
  have each: "\<bar>uint achieved_ns - uint target_time_ns\<bar>
              \<le> \<bar>uint (candidate_time ?ticks post pre) - uint target_time_ns\<bar>"
    if v: "candidate_valid ?ticks post pre" for post pre
  proof -
    have "unat (candidate_time ?ticks post pre) < 2 ^ 31"
      using candidate_time_bound [OF v] by simp
    then have "labs (candidate_time ?ticks post pre - target_time_ns) =
                 \<bar>uint (candidate_time ?ticks post pre) - uint target_time_ns\<bar>"
      using t31 by (rule labs_in_range)
    with search_le [OF v, of target_time_ns] d show ?thesis
      unfolding a by simp
  qed
  from origin zero each show ?thesis by blast
qed

theorem find_scalers_time_closest_examined_witness:
  "16950 \<le> MAX_TIME_NS \<and>
   find_scalers_time 16950 stale_scalers =
     (17000, \<lparr>prescale = 1, postscale = 15, period = 16\<rparr>) \<and>
   candidate_valid (ticks_of 16950) 3 0 \<and>
   candidate_time (ticks_of 16950) 3 0 = 16875 \<and>
   \<bar>uint (17000 :: u32) - uint (16950 :: u32)\<bar>
     \<le> \<bar>uint (candidate_time (ticks_of 16950) 3 0) - uint (16950 :: u32)\<bar>"
proof -
  have r: "16950 \<le> MAX_TIME_NS"
    by (simp add: MAX_TIME_NS_value)
  have v: "candidate_valid (ticks_of 16950) 3 0"
    by (simp add: ticks_of_16950 candidate_defs)
  have c: "candidate_time (ticks_of 16950) 3 0 = 16875"
    by (simp add: ticks_of_16950 candidate_defs)
  from find_scalers_time_closest_examined [OF r find_scalers_time_16950 [of stale_scalers]] v
  have "\<bar>uint (17000 :: u32) - uint (16950 :: u32)\<bar>
     \<le> \<bar>uint (candidate_time (ticks_of 16950) 3 0) - uint (16950 :: u32)\<bar>"
    by blast
  with r v c find_scalers_time_16950 [of stale_scalers] show ?thesis
    by blast
qed

text \<open>C4, as the spec states it: whenever the search finds a valid combination, the
  achieved time is the back-conversion of the stored dividers, with the stored postscale
  in 0 to 15. It fails at 16 ns: prescale 1 with period 1 and postscale 1 passes the test
  of line 95 and gives 62 ns, zero is closer to the target, and the function returns zero
  with postscale 255 and period 255 stored, whose back-conversion is 2048000 ns.\<close>

theorem find_scalers_time_back_conversion_counterexample:
  "16 \<le> MAX_TIME_NS \<and> candidate_valid (ticks_of 16) 1 1 \<and>
   candidate_time (ticks_of 16) 1 1 = 62 \<and>
   find_scalers_time 16 stale_scalers = (0, \<lparr>prescale = 0, postscale = 255, period = 255\<rparr>) \<and>
   (31250 * 2 ^ 0 * (255 + 1) * (255 + 1) div 1000 :: nat) = 2048000"
  by (simp add: MAX_TIME_NS_value ticks_of_16 candidate_defs find_scalers_time_16)

text \<open>C4, amended. For every target up to \<^verbatim>\<open>MAX_TIME_NS\<close> for which the function returns
  a nonzero achieved time, the stored prescale is at most 7, the stored postscale at most
  15 and the stored period at most 255, and the achieved time is the tick period of
  31250 ps times \<open>2 ^ prescale * (period + 1) * (postscale + 1)\<close>, in whole nanoseconds
  rounded down.\<close>

theorem find_scalers_time_back_conversion:
  assumes "target_time_ns \<le> MAX_TIME_NS"
    and "find_scalers_time target_time_ns outs = (achieved_ns, s)"
    and "achieved_ns \<noteq> 0"
  shows "unat (prescale s) \<le> 7 \<and> unat (postscale s) \<le> 15 \<and> unat (period s) \<le> 255 \<and>
         unat achieved_ns =
           31250 * 2 ^ unat (prescale s) * (unat (period s) + 1) * (unat (postscale s) + 1)
             div 1000"
proof -
  let ?ticks = "ticks_of target_time_ns"
  let ?b = "postscale_search target_time_ns ?ticks 16 best_init"
  from assms have a: "achieved_ns = time_ns_best ?b" and s: "s = store_best ?b"
    by (simp_all add: find_scalers_time_in_range)
  from assms(3) have "?b \<noteq> best_init"
    unfolding a by (auto simp add: best_init_def)
  with search_origin [of target_time_ns ?ticks]
  obtain post pre where v: "candidate_valid ?ticks post pre"
    and b: "?b = adopted (?ticks div of_nat post) post pre"
    by blast
  from v have r: "pre \<le> 7" "post \<le> 16"
    "unat (candidate_period ?ticks post pre) \<le> 255"
    using valid_period_unat [of "candidate_period ?ticks post pre" pre]
    by (simp_all add: candidate_valid_def)
  note st = store_adopted [OF v]
  have "unat achieved_ns = 3125 * 2 ^ pre * unat (candidate_period ?ticks post pre) * post div 100"
    unfolding a b adopted_time by (rule candidate_time_unat [OF v])
  also have "\<dots> = (10 * (3125 * 2 ^ pre * unat (candidate_period ?ticks post pre) * post))
                      div (10 * 100)"
    by (rule div_mult_mult1 [symmetric]) simp
  also have "\<dots> = 31250 * 2 ^ pre * unat (candidate_period ?ticks post pre) * post div 1000"
    by (simp add: mult.assoc)
  finally have "unat achieved_ns =
      31250 * 2 ^ unat (prescale s) * (unat (period s) + 1) * (unat (postscale s) + 1) div 1000"
    unfolding s b st .
  moreover have "unat (prescale s) \<le> 7" "unat (postscale s) \<le> 15" "unat (period s) \<le> 255"
    using st r unfolding s b by linarith+
  ultimately show ?thesis by blast
qed

theorem find_scalers_time_back_conversion_witness:
  "32 \<le> MAX_TIME_NS \<and>
   find_scalers_time 32 stale_scalers = (62, \<lparr>prescale = 1, postscale = 0, period = 0\<rparr>) \<and>
   (62 :: u32) \<noteq> 0 \<and>
   unat (62 :: u32) = 31250 * 2 ^ 1 * (0 + 1) * (0 + 1) div 1000"
proof -
  have r: "32 \<le> MAX_TIME_NS"
    by (simp add: MAX_TIME_NS_value)
  have n: "(62 :: u32) \<noteq> 0"
    by simp
  from find_scalers_time_back_conversion [OF r find_scalers_time_32 [of stale_scalers] n]
  have "unat (62 :: u32) = 31250 * 2 ^ 1 * (0 + 1) * (0 + 1) div 1000"
    by simp
  with r n find_scalers_time_32 [of stale_scalers] show ?thesis
    by blast
qed

text \<open>C5, as the spec states it: when no combination is valid the function returns zero
  with all three stored dividers zero. It fails at 0 ns: no combination passes the test of
  line 95, and the stored postscale and period are 255.\<close>

theorem find_scalers_time_nothing_valid_counterexample:
  "0 \<le> MAX_TIME_NS \<and> no_valid_candidate (ticks_of 0) \<and>
   find_scalers_time 0 stale_scalers = (0, \<lparr>prescale = 0, postscale = 255, period = 255\<rparr>)"
  by (simp add: ticks_of_0 no_valid_candidate_zero find_scalers_time_in_range
      search_nothing_valid store_best_init)

text \<open>C5, amended. For every target up to \<^verbatim>\<open>MAX_TIME_NS\<close> for which no combination
  passes the test of line 95, the function returns an achieved time of zero and stores
  prescale 0, postscale 255 and period 255: the zero initial values of lines 80 and 82
  less one, in 8 bits.\<close>

theorem find_scalers_time_nothing_valid:
  assumes "target_time_ns \<le> MAX_TIME_NS"
    and "no_valid_candidate (ticks_of target_time_ns)"
  shows "find_scalers_time target_time_ns outs =
           (0, \<lparr>prescale = 0, postscale = 255, period = 255\<rparr>)"
  using assms
  by (simp add: find_scalers_time_in_range search_nothing_valid store_best_init)

theorem find_scalers_time_nothing_valid_witness:
  "15 \<le> MAX_TIME_NS \<and> no_valid_candidate (ticks_of 15) \<and>
   find_scalers_time 15 stale_scalers = (0, \<lparr>prescale = 0, postscale = 255, period = 255\<rparr>)"
proof -
  have r: "15 \<le> MAX_TIME_NS"
    by (simp add: MAX_TIME_NS_value)
  have n: "no_valid_candidate (ticks_of 15)"
    by (simp add: ticks_of_15 no_valid_candidate_zero)
  from find_scalers_time_nothing_valid [OF r n, of stale_scalers] r n show ?thesis
    by blast
qed


end
